theory Spec2Isabelle
  imports Main "HOL-Library.Multiset"
begin

section \<open>Access group classification: the data model\<close>

text \<open>
  The program \<^verbatim>\<open>equivalence_access_control.py\<close> groups user records by their
  (department, role, clearance) triple, assigns a permission tier to each group and
  offers a menu loop to list, add, check, export and recompute.
\<close>

subsection \<open>Python text, \<^verbatim>\<open>str.strip()\<close> and \<^verbatim>\<open>str.lower()\<close>\<close>

text \<open>
  A Python \<^verbatim>\<open>str\<close> is a sequence of Unicode code points, so text is a list of
  code points. \<open>py\<close> turns a literal of the program, all of which are ASCII, into
  such a list.
\<close>

type_synonym str = "nat list"

definition py :: "string \<Rightarrow> str" where
  "py s = map of_char s"

text \<open>
  The code points for which \<^verbatim>\<open>str.isspace()\<close> holds, which are the ones
  \<^verbatim>\<open>strip()\<close> removes from both ends: U+0009..U+000D, U+001C..U+001F, the space,
  U+0085, U+00A0, U+1680, U+2000..U+200A, U+2028, U+2029, U+202F, U+205F and U+3000.
\<close>

definition whitespace :: "nat list" where
  "whitespace = [0x09, 0x0A, 0x0B, 0x0C, 0x0D, 0x1C, 0x1D, 0x1E, 0x1F, 0x20, 0x85, 0xA0,
                 0x1680, 0x2000, 0x2001, 0x2002, 0x2003, 0x2004, 0x2005, 0x2006, 0x2007,
                 0x2008, 0x2009, 0x200A, 0x2028, 0x2029, 0x202F, 0x205F, 0x3000]"

definition isspace :: "nat \<Rightarrow> bool" where
  "isspace c = (c \<in> set whitespace)"

definition strip :: "str \<Rightarrow> str" where
  "strip s = rev (dropWhile isspace (rev (dropWhile isspace s)))"

text \<open>
  \<^verbatim>\<open>str.lower()\<close>. On text whose code points are all below U+0100 it works code
  point by code point: A..Z, U+00C0..U+00D6 and U+00D8..U+00DE move up by 0x20 and
  everything else stays. On other text the result comes from the case tables and the
  context rules of the Unicode standard, which are not part of the program; there the
  model takes Python's \<^verbatim>\<open>str.lower\<close> as the parameter \<open>unicode_lower\<close>, about
  which nothing is assumed. Every function that lowercases text carries this parameter.
\<close>

definition lower_latin1 :: "nat \<Rightarrow> nat" where
  "lower_latin1 c =
     (if (0x41 \<le> c \<and> c \<le> 0x5A) \<or> (0xC0 \<le> c \<and> c \<le> 0xD6) \<or> (0xD8 \<le> c \<and> c \<le> 0xDE)
      then c + 0x20 else c)"

definition lower :: "(str \<Rightarrow> str) \<Rightarrow> str \<Rightarrow> str" where
  "lower unicode_lower s =
     (if list_all (\<lambda>c. c < 0x100) s then map lower_latin1 s else unicode_lower s)"

subsection \<open>The class \<^verbatim>\<open>User\<close>\<close>

record User =
  uid :: int
  name :: str
  dept :: str
  role :: str
  clearance :: str

text \<open>\<^verbatim>\<open>User.__init__\<close>: the three classification fields are stripped and lowercased.\<close>

definition User_init :: "(str \<Rightarrow> str) \<Rightarrow> int \<Rightarrow> str \<Rightarrow> str \<Rightarrow> str \<Rightarrow> str \<Rightarrow> User" where
  "User_init unicode_lower uid' name' dept' role' clearance' =
     \<lparr>uid = uid', name = name', dept = lower unicode_lower (strip dept'),
      role = lower unicode_lower (strip role'),
      clearance = lower unicode_lower (strip clearance')\<rparr>"

text \<open>
  A Python list of users holds references to \<^verbatim>\<open>User\<close> objects, and \<^verbatim>\<open>User\<close>
  defines no \<^verbatim>\<open>__eq__\<close>, so \<^verbatim>\<open>u in members\<close> compares object identities. The
  model keeps the objects in a store, a list indexed by reference; lists of users are
  lists of references. Allocation appends to the store. No function of the program
  assigns to a field of an existing object.
\<close>

type_synonym ref = nat
type_synonym heap = "User list"

definition new_User ::
  "(str \<Rightarrow> str) \<Rightarrow> heap \<Rightarrow> int \<Rightarrow> str \<Rightarrow> str \<Rightarrow> str \<Rightarrow> str \<Rightarrow> heap \<times> ref" where
  "new_User unicode_lower h uid' name' dept' role' clearance' =
     (h @ [User_init unicode_lower uid' name' dept' role' clearance'], length h)"

type_synonym key = "str \<times> str \<times> str"

definition attr_tuple :: "heap \<Rightarrow> ref \<Rightarrow> key" where
  "attr_tuple h u = (dept (h ! u), role (h ! u), clearance (h ! u))"

subsection \<open>Dictionaries\<close>

text \<open>
  A Python \<^verbatim>\<open>dict\<close> iterates in insertion order, and the claims are about that order,
  so a dictionary is an association list in insertion order. \<open>dict_set\<close> is
  \<^verbatim>\<open>d[k] = v\<close>: an existing key keeps its position, a new key goes to the end.
\<close>

type_synonym ('k, 'v) dict = "('k \<times> 'v) list"

fun dict_get :: "('k, 'v) dict \<Rightarrow> 'k \<Rightarrow> 'v option" where
  "dict_get [] k = None"
| "dict_get ((k', v') # d) k = (if k' = k then Some v' else dict_get d k)"

fun dict_set :: "('k, 'v) dict \<Rightarrow> 'k \<Rightarrow> 'v \<Rightarrow> ('k, 'v) dict" where
  "dict_set [] k v = [(k, v)]"
| "dict_set ((k', v') # d) k v =
     (if k' = k then (k', v) # d else (k', v') # dict_set d k v)"

definition keys :: "('k, 'v) dict \<Rightarrow> 'k list" where
  "keys d = map fst d"

type_synonym groups = "(key, ref list) dict"
type_synonym perms = "(key, str) dict"

section \<open>The classifier\<close>

text \<open>
  \<^verbatim>\<open>groups[u.attr_tuple()].append(u)\<close> on a \<^verbatim>\<open>defaultdict(list)\<close>: a missing key is
  first inserted with the empty list, then the user is appended to the key's list.
\<close>

definition defaultdict_append :: "groups \<Rightarrow> key \<Rightarrow> ref \<Rightarrow> groups" where
  "defaultdict_append groups k u =
     (case dict_get groups k of
        None \<Rightarrow> dict_set groups k ([] @ [u])
      | Some members \<Rightarrow> dict_set groups k (members @ [u]))"

fun build_classes_loop :: "heap \<Rightarrow> ref list \<Rightarrow> groups \<Rightarrow> groups" where
  "build_classes_loop h [] groups = groups"
| "build_classes_loop h (u # users) groups =
     build_classes_loop h users (defaultdict_append groups (attr_tuple h u) u)"

definition build_classes :: "heap \<Rightarrow> ref list \<Rightarrow> groups" where
  "build_classes h users = build_classes_loop h users []"

subsection \<open>Relation property checks\<close>

text \<open>
  \<^verbatim>\<open>groups.get(u.attr_tuple(), [])\<close> is the lookup with the empty list as default;
  \<^verbatim>\<open>u not in ...\<close> compares references.
\<close>

fun check_reflexive :: "heap \<Rightarrow> ref list \<Rightarrow> groups \<Rightarrow> bool" where
  "check_reflexive h [] groups = True"
| "check_reflexive h (u # users) groups =
     (if u \<notin> set (case dict_get groups (attr_tuple h u) of Some members \<Rightarrow> members | None \<Rightarrow> [])
      then False
      else check_reflexive h users groups)"

definition check_sym_trans :: "ref list \<Rightarrow> bool \<times> bool" where
  "check_sym_trans users = (True, True)"

section \<open>The permission assigner\<close>

text \<open>The loop \<^verbatim>\<open>for key in groups\<close> of \<^verbatim>\<open>assign_permissions\<close>, with \<open>perms\<close> the
  dictionary built so far.\<close>

fun assign_permissions_loop :: "groups \<Rightarrow> perms \<Rightarrow> perms" where
  "assign_permissions_loop [] perms = perms"
| "assign_permissions_loop ((key, members) # groups) perms =
     (let clr = snd (snd key) in
      if clr \<in> set [py ''high'', py ''top'', py ''3'', py ''level3''] then
        assign_permissions_loop groups (dict_set perms key (py ''Level 3 Access''))
      else if clr \<in> set [py ''medium'', py ''2'', py ''level2''] then
        assign_permissions_loop groups (dict_set perms key (py ''Level 2 Access''))
      else
        assign_permissions_loop groups (dict_set perms key (py ''Level 1 Access'')))"

definition assign_permissions :: "groups \<Rightarrow> perms" where
  "assign_permissions groups = assign_permissions_loop groups []"

section \<open>Display, interactive add and export\<close>

text \<open>
  \<^verbatim>\<open>print_groups\<close> prints one block per group. The model returns what each block
  shows: the running number \<open>g\<close>, the key, the permission text looked up with the
  fallback \<^verbatim>\<open>"Level ? (not assigned)"\<close>, and the members. The layout of the text
  (title case, the \<^verbatim>\<open>repr\<close> of a user) is not modelled.
\<close>

fun print_groups_loop :: "groups \<Rightarrow> perms \<Rightarrow> int \<Rightarrow> (int \<times> key \<times> str \<times> ref list) list" where
  "print_groups_loop [] perms g = []"
| "print_groups_loop ((key, members) # groups) perms g =
     (let perm_text = (case dict_get perms key of Some p \<Rightarrow> p
                       | None \<Rightarrow> py ''Level ? (not assigned)'')
      in (g, key, perm_text, members) # print_groups_loop groups perms (g + 1))"

definition print_groups :: "groups \<Rightarrow> perms \<Rightarrow> (int \<times> key \<times> str \<times> ref list) list" where
  "print_groups groups perms = print_groups_loop groups perms 1"

text \<open>
  \<^verbatim>\<open>add_user_interactive\<close> reads up to four lines; \<open>name_in\<close>, \<open>dept_in\<close>,
  \<open>role_in\<close> and \<open>clearance_in\<close> are what \<^verbatim>\<open>input\<close> returns at the four prompts
  (the last three are read only when the name is not empty). The function mutates
  \<open>users\<close> and \<open>groups\<close> in place and allocates one object; the model returns the
  function's result (\<open>None\<close> for Python's \<^verbatim>\<open>None\<close>) together with the store, the user
  list and the grouping after the call. \<^verbatim>\<open>x.strip() or d\<close> is \<open>d\<close> when the stripped
  text is empty. Messages printed to the console are not modelled.
\<close>

definition add_user_interactive ::
  "(str \<Rightarrow> str) \<Rightarrow> int \<Rightarrow> heap \<Rightarrow> ref list \<Rightarrow> groups \<Rightarrow> str \<Rightarrow> str \<Rightarrow> str \<Rightarrow> str
     \<Rightarrow> ref option \<times> heap \<times> ref list \<times> groups" where
  "add_user_interactive unicode_lower next_uid h users groups name_in dept_in role_in clearance_in =
     (let name' = strip name_in in
      if name' = [] then (None, h, users, groups)
      else
        let dept' = (if strip dept_in = [] then py ''unknown'' else strip dept_in);
            role' = (if strip role_in = [] then py ''staff'' else strip role_in);
            clearance' = (if strip clearance_in = [] then py ''low'' else strip clearance_in);
            (h', u) = new_User unicode_lower h next_uid name' dept' role' clearance';
            key = attr_tuple h' u;
            groups' = (case dict_get groups key of
                         Some members \<Rightarrow> dict_set groups key (members @ [u])
                       | None \<Rightarrow> dict_set groups key [u])
        in (Some u, h', users @ [u], groups'))"

text \<open>
  \<^verbatim>\<open>save_groups_csv\<close> opens the file for writing (truncating it) and hands rows to a
  \<^verbatim>\<open>csv.writer\<close>. The model returns the rows handed to \<^verbatim>\<open>writerow\<close>, in order; a
  cell is a string or an integer (\<^verbatim>\<open>u.uid\<close>). How the library quotes a cell and
  whether the file can be opened are outside the model.
\<close>

datatype cell = CStr str | CInt int

fun write_members :: "heap \<Rightarrow> key \<Rightarrow> ref list \<Rightarrow> cell list list \<Rightarrow> cell list list" where
  "write_members h key [] w = w"
| "write_members h key (u # members) w =
     (case key of (dept', role', clr) \<Rightarrow>
        write_members h key members
          (w @ [[CStr dept', CStr role', CStr clr, CInt (uid (h ! u)), CStr (name (h ! u))]]))"

fun write_groups :: "heap \<Rightarrow> groups \<Rightarrow> cell list list \<Rightarrow> cell list list" where
  "write_groups h [] w = w"
| "write_groups h ((key, members) # groups) w = write_groups h groups (write_members h key members w)"

definition csv_header :: "cell list" where
  "csv_header = [CStr (py ''group_dept''), CStr (py ''group_role''), CStr (py ''group_clearance''),
                 CStr (py ''user_id''), CStr (py ''user_name'')]"

definition save_groups_csv :: "heap \<Rightarrow> groups \<Rightarrow> cell list list" where
  "save_groups_csv h groups = write_groups h groups ([] @ [csv_header])"

section \<open>The session of \<^verbatim>\<open>main\<close>\<close>

definition demo_data :: "(str \<Rightarrow> str) \<Rightarrow> heap \<times> ref list" where
  "demo_data unicode_lower =
     (let (h, u1) = new_User unicode_lower [] 1 (py ''Alice Smith'')
                      (py ''Engineering'') (py ''Developer'') (py ''High'');
          (h, u2) = new_User unicode_lower h 2 (py ''Bob Jones'')
                      (py ''Engineering'') (py ''Developer'') (py ''High'');
          (h, u3) = new_User unicode_lower h 3 (py ''Charlie Ray'')
                      (py ''Engineering'') (py ''Tester'') (py ''Medium'');
          (h, u4) = new_User unicode_lower h 4 (py ''Diana King'')
                      (py ''HR'') (py ''Manager'') (py ''High'');
          (h, u5) = new_User unicode_lower h 5 (py ''Eve Stone'')
                      (py ''HR'') (py ''Manager'') (py ''High'');
          (h, u6) = new_User unicode_lower h 6 (py ''Frank Liu'')
                      (py ''Finance'') (py ''Analyst'') (py ''Low'');
          (h, u7) = new_User unicode_lower h 7 (py ''Grace Y'')
                      (py ''Engineering'') (py ''Developer'') (py ''High'');
          (h, u8) = new_User unicode_lower h 8 (py ''Hector Z'')
                      (py ''Finance'') (py ''Analyst'') (py ''Low'')
      in (h, [u1, u2, u3, u4, u5, u6, u7, u8]))"

text \<open>
  The local variables of \<^verbatim>\<open>main\<close>, with the object store. \<open>main_init\<close> is the state
  when the menu loop is entered; \<^verbatim>\<open>max\<close> is over the non-empty demo data.
\<close>

record session =
  objs :: heap
  users :: "ref list"
  groups :: groups
  perms :: perms
  next_uid :: int

definition main_init :: "(str \<Rightarrow> str) \<Rightarrow> session" where
  "main_init unicode_lower =
     (let (h, us) = demo_data unicode_lower;
          gs = build_classes h us;
          ps = assign_permissions gs
      in \<lparr>objs = h, users = us, groups = gs, perms = ps,
          next_uid = Max (set (map (\<lambda>u. uid (h ! u)) us)) + 1\<rparr>)"

text \<open>Menu choice 2, "Show groups": the permissions are reassigned, then displayed.\<close>

definition main_show_groups :: "session \<Rightarrow> session \<times> (int \<times> key \<times> str \<times> ref list) list" where
  "main_show_groups s =
     (let s' = s\<lparr>perms := assign_permissions (groups s)\<rparr>
      in (s', print_groups (groups s') (perms s')))"

text \<open>
  Menu choice 3, "Add user". A \<^verbatim>\<open>User\<close> object is always true in
  \<^verbatim>\<open>if new_u:\<close>, so the branch is taken exactly when the result is not \<^verbatim>\<open>None\<close>.
\<close>

definition main_add_user :: "(str \<Rightarrow> str) \<Rightarrow> str \<Rightarrow> str \<Rightarrow> str \<Rightarrow> str \<Rightarrow> session \<Rightarrow> session" where
  "main_add_user unicode_lower name_in dept_in role_in clearance_in s =
     (case add_user_interactive unicode_lower (next_uid s) (objs s) (users s) (groups s)
             name_in dept_in role_in clearance_in of
        (new_u, h', users', groups') \<Rightarrow>
          (let s' = s\<lparr>objs := h', users := users', groups := groups'\<rparr> in
           case new_u of
             None \<Rightarrow> s'
           | Some u \<Rightarrow> s'\<lparr>next_uid := next_uid s' + 1, perms := assign_permissions (groups s')\<rparr>))"

text \<open>Menu choice 4, "Check relation properties": the three values printed.\<close>

definition main_check :: "session \<Rightarrow> bool \<times> bool \<times> bool" where
  "main_check s =
     (let r = check_reflexive (objs s) (users s) (groups s);
          (sy, tr) = check_sym_trans (users s)
      in (r, sy, tr))"

text \<open>Menu choice 5, "Save groups to CSV".\<close>

definition main_save :: "session \<Rightarrow> cell list list" where
  "main_save s = save_groups_csv (objs s) (groups s)"

text \<open>Menu choice 6, "Recompute groups/permissions".\<close>

definition main_recompute :: "session \<Rightarrow> session" where
  "main_recompute s =
     (let s' = s\<lparr>groups := build_classes (objs s) (users s)\<rparr>
      in s'\<lparr>perms := assign_permissions (groups s')\<rparr>)"

section \<open>Notions used to state the properties\<close>

text \<open>
  These definitions are not part of the program. \<open>first_occ xs\<close> lists the elements
  of \<open>xs\<close> without repetition, in the order of their first occurrence;
  \<open>first_index P xs\<close> is the position of the first element satisfying \<open>P\<close> (the
  length of \<open>xs\<close> when there is none); \<open>members_of groups k\<close> is
  \<^verbatim>\<open>groups.get(k, [])\<close>.
\<close>

fun first_occ :: "'a list \<Rightarrow> 'a list" where
  "first_occ [] = []"
| "first_occ (x # xs) = x # first_occ (filter (\<lambda>y. y \<noteq> x) xs)"

definition first_index :: "('a \<Rightarrow> bool) \<Rightarrow> 'a list \<Rightarrow> nat" where
  "first_index P xs = length (takeWhile (\<lambda>x. \<not> P x) xs)"

definition members_of :: "groups \<Rightarrow> key \<Rightarrow> ref list" where
  "members_of gs k = (case dict_get gs k of Some ms \<Rightarrow> ms | None \<Rightarrow> [])"

text \<open>
  The precedence table of the specification's permission assigner, on the clearance
  component alone: the first matching line wins.
\<close>

definition spec_tier :: "str \<Rightarrow> str" where
  "spec_tier clr =
     (if clr \<in> {py ''high'', py ''top'', py ''3'', py ''level3''} then py ''Level 3 Access''
      else if clr \<in> {py ''medium'', py ''2'', py ''level2''} then py ''Level 2 Access''
      else py ''Level 1 Access'')"


section \<open>Dictionaries and the helper notions\<close>

lemma dict_get_None_iff: "dict_get d k = None \<longleftrightarrow> k \<notin> set (keys d)"
  by (induction d) (force simp: keys_def split: if_splits)+

lemma keys_dict_set: "keys (dict_set d k v) = (if k \<in> set (keys d) then keys d else keys d @ [k])"
  by (induction d) (force simp: keys_def)+

lemma dict_get_dict_set: "dict_get (dict_set d k v) k' = (if k' = k then Some v else dict_get d k')"
  by (induction d) auto

lemma dict_set_new: "k \<notin> set (keys d) \<Longrightarrow> dict_set d k v = d @ [(k, v)]"
  by (induction d) (auto simp: keys_def)

lemma keys_defaultdict_append:
  "keys (defaultdict_append gs k u) = (if k \<in> set (keys gs) then keys gs else keys gs @ [k])"
  by (simp add: defaultdict_append_def keys_dict_set split: option.split)

lemma dict_get_defaultdict_append:
  "dict_get (defaultdict_append gs k u) k' =
     (if k' = k then Some (members_of gs k @ [u]) else dict_get gs k')"
  by (simp add: defaultdict_append_def members_of_def dict_get_dict_set split: option.split)

lemma set_first_occ: "set (first_occ xs) = set xs"
  by (induction xs rule: first_occ.induct) auto

lemma distinct_first_occ: "distinct (first_occ xs)"
  by (induction xs rule: first_occ.induct) (auto simp: set_first_occ)


lemma keys_build_classes_loop:
  "keys (build_classes_loop h us gs) =
     keys gs @ first_occ (filter (\<lambda>k. k \<notin> set (keys gs)) (map (attr_tuple h) us))"
proof (induction us arbitrary: gs)
  case Nil
  show ?case by simp
next
  case (Cons u us)
  show ?case
  proof (cases "attr_tuple h u \<in> set (keys gs)")
    case True
    then show ?thesis by (simp add: Cons.IH keys_defaultdict_append)
  next
    case False
    have "filter (\<lambda>k. k \<noteq> attr_tuple h u \<and> k \<notin> set (keys gs)) (map (attr_tuple h) us)
        = filter (\<lambda>y. y \<noteq> attr_tuple h u) (filter (\<lambda>k. k \<notin> set (keys gs)) (map (attr_tuple h) us))"
      by (simp add: conj_commute)
    with False show ?thesis
      by (simp add: Cons.IH keys_defaultdict_append del: filter_filter)
  qed
qed

lemma members_of_build_classes_loop:
  "members_of (build_classes_loop h us gs) k = members_of gs k @ filter (\<lambda>u. attr_tuple h u = k) us"
proof (induction us arbitrary: gs)
  case Nil
  show ?case by simp
next
  case (Cons u us)
  have "members_of (defaultdict_append gs (attr_tuple h u) u) k =
        (if k = attr_tuple h u then members_of gs k @ [u] else members_of gs k)"
    by (simp add: members_of_def dict_get_defaultdict_append)
  then show ?case by (simp add: Cons.IH)
qed

lemma dict_eq_lookup:
  "distinct (keys d) \<Longrightarrow> d = map (\<lambda>k. (k, the (dict_get d k))) (keys d)"
proof (induction d)
  case Nil
  show ?case by (simp add: keys_def)
next
  case (Cons p d)
  obtain a b where p: "p = (a, b)" by (cases p)
  from Cons.prems have a: "a \<notin> set (keys d)" and dd: "distinct (keys d)"
    by (simp_all add: p keys_def)
  have "map (\<lambda>k. (k, the (dict_get (p # d) k))) (keys d) = map (\<lambda>k. (k, the (dict_get d k))) (keys d)"
    using a by (intro map_cong) (auto simp: p)
  with Cons.IH[OF dd] show ?case by (simp add: p keys_def)
qed

lemma build_classes_eq:
  "build_classes h us =
     map (\<lambda>k. (k, filter (\<lambda>u. attr_tuple h u = k) us)) (first_occ (map (attr_tuple h) us))"
proof -
  let ?gs = "build_classes h us"
  have ks: "keys ?gs = first_occ (map (attr_tuple h) us)"
    unfolding build_classes_def keys_build_classes_loop by (simp add: keys_def)
  have d: "distinct (keys ?gs)"
    by (simp add: ks distinct_first_occ)
  have m: "members_of ?gs k = filter (\<lambda>u. attr_tuple h u = k) us" for k
    unfolding build_classes_def members_of_build_classes_loop by (simp add: members_of_def)
  have "the (dict_get ?gs k) = filter (\<lambda>u. attr_tuple h u = k) us" if "k \<in> set (keys ?gs)" for k
  proof -
    from that obtain ms where "dict_get ?gs k = Some ms"
      using dict_get_None_iff[of ?gs k] by auto
    with m[of k] show ?thesis by (simp add: members_of_def)
  qed
  then have "map (\<lambda>k. (k, the (dict_get ?gs k))) (keys ?gs)
      = map (\<lambda>k. (k, filter (\<lambda>u. attr_tuple h u = k) us)) (keys ?gs)"
    by simp
  with dict_eq_lookup[OF d] ks show ?thesis by simp
qed


lemma assign_permissions_loop_Cons:
  "assign_permissions_loop ((k, ms) # gs) ps =
     assign_permissions_loop gs (dict_set ps k (spec_tier (snd (snd k))))"
  by (simp add: spec_tier_def Let_def)

lemma dict_get_assign_permissions_loop:
  "dict_get (assign_permissions_loop gs ps) k =
     (if k \<in> set (keys gs) then Some (spec_tier (snd (snd k))) else dict_get ps k)"
proof (induction gs arbitrary: ps)
  case Nil
  show ?case by (simp add: keys_def)
next
  case (Cons p gs)
  obtain k' ms where p: "p = (k', ms)" by (cases p)
  have kp: "keys (p # gs) = k' # keys gs" by (simp add: p keys_def)
  show ?case
    unfolding p assign_permissions_loop_Cons Cons.IH kp[unfolded p]
    by (simp add: dict_get_dict_set)
qed

lemma set_keys_assign_permissions_loop:
  "set (keys (assign_permissions_loop gs ps)) = set (keys ps) \<union> set (keys gs)"
proof (induction gs arbitrary: ps)
  case Nil
  show ?case by (simp add: keys_def)
next
  case (Cons p gs)
  obtain k' ms where p: "p = (k', ms)" by (cases p)
  have kp: "keys (p # gs) = k' # keys gs" by (simp add: p keys_def)
  have "set (keys (dict_set ps k' t)) = insert k' (set (keys ps))" for t
    by (auto simp: keys_dict_set)
  then show ?case
    unfolding p assign_permissions_loop_Cons Cons.IH kp[unfolded p]
    by auto
qed

lemma keys_assign_permissions_loop:
  "distinct (keys gs) \<Longrightarrow>
   keys (assign_permissions_loop gs ps) = keys ps @ filter (\<lambda>k. k \<notin> set (keys ps)) (keys gs)"
proof (induction gs arbitrary: ps)
  case Nil
  show ?case by (simp add: keys_def)
next
  case (Cons p gs)
  obtain k' ms where p: "p = (k', ms)" by (cases p)
  have kp: "keys (p # gs) = k' # keys gs" by (simp add: p keys_def)
  from Cons.prems have k': "k' \<notin> set (keys gs)" and d: "distinct (keys gs)"
    by (simp_all add: kp)
  have f: "filter (\<lambda>k. k \<noteq> k' \<and> k \<notin> set (keys ps)) (keys gs) = filter (\<lambda>k. k \<notin> set (keys ps)) (keys gs)"
    using k' by (intro filter_cong) auto
  show ?case
    unfolding p assign_permissions_loop_Cons Cons.IH[OF d] kp[unfolded p]
    by (simp add: keys_dict_set f)
qed

lemma check_reflexive_iff:
  "check_reflexive h us gs \<longleftrightarrow> (\<forall>u \<in> set us. u \<in> set (members_of gs (attr_tuple h u)))"
  by (induction us) (auto simp: members_of_def)

lemma members_of_build_classes:
  "members_of (build_classes h us) k = filter (\<lambda>u. attr_tuple h u = k) us"
  unfolding build_classes_def members_of_build_classes_loop by (simp add: members_of_def)

lemma keys_build_classes: "keys (build_classes h us) = first_occ (map (attr_tuple h) us)"
  unfolding build_classes_def keys_build_classes_loop by (simp add: keys_def)



lemma first_index_Cons:
  "first_index P (x # xs) = (if P x then 0 else Suc (first_index P xs))"
  by (simp add: first_index_def)

lemma first_index_filter_order:
  "k1 \<noteq> x \<Longrightarrow> k2 \<noteq> x \<Longrightarrow>
   first_index (\<lambda>k. k = k1) (filter (\<lambda>y. y \<noteq> x) xs) < first_index (\<lambda>k. k = k2) (filter (\<lambda>y. y \<noteq> x) xs)
   \<longleftrightarrow> first_index (\<lambda>k. k = k1) xs < first_index (\<lambda>k. k = k2) xs"
  by (induction xs) (auto simp: first_index_Cons)

lemma first_index_first_occ_order:
  "first_index (\<lambda>k. k = k1) (first_occ xs) < first_index (\<lambda>k. k = k2) (first_occ xs)
   \<longleftrightarrow> first_index (\<lambda>k. k = k1) xs < first_index (\<lambda>k. k = k2) xs"
proof (induction xs rule: first_occ.induct)
  case 1
  show ?case by (simp add: first_index_def)
next
  case (2 x xs)
  show ?case
  proof (cases "k1 = x \<or> k2 = x")
    case True
    then show ?thesis by (auto simp: first_index_Cons)
  next
    case False
    then show ?thesis
      using "2.IH" first_index_filter_order[of k1 x k2 xs]
      by (simp add: first_index_Cons)
  qed
qed

lemma first_index_map:
  "first_index P (map f xs) = first_index (\<lambda>x. P (f x)) xs"
  by (simp add: first_index_def takeWhile_map comp_def)

lemma mset_concat_filter_keys:
  "distinct ks \<Longrightarrow>
   mset (concat (map (\<lambda>k. filter (\<lambda>u. f u = k) us) ks)) = mset (filter (\<lambda>u. f u \<in> set ks) us)"
proof (induction ks)
  case Nil
  show ?case by simp
next
  case (Cons k ks)
  then have k: "k \<notin> set ks" and d: "distinct ks" by simp_all
  have "mset (filter (\<lambda>u. f u = k) us) + mset (filter (\<lambda>u. f u \<in> set ks) us)
      = mset (filter (\<lambda>u. f u \<in> set (k # ks)) us)"
    using k by (induction us) auto
  with Cons.IH[OF d] show ?case by simp
qed

lemma count_list_filter:
  "count_list (filter P xs) u = (if P u then count_list xs u else 0)"
  by (induction xs) auto

lemma print_groups_loop_entry:
  "(g', k, t, ms) \<in> set (print_groups_loop gs ps g) \<Longrightarrow>
   (k, ms) \<in> set gs \<and>
   t = (case dict_get ps k of Some p \<Rightarrow> p | None \<Rightarrow> py ''Level ? (not assigned)'')"
  by (induction gs arbitrary: g) (fastforce simp: Let_def)+

lemma print_groups_loop_groups:
  "map (\<lambda>(g, k, perm_text, ms). (k, ms)) (print_groups_loop gs ps g) = gs"
  by (induction gs arbitrary: g) (auto simp: Let_def)

lemma py_eq_iff [simp]: "py s = py t \<longleftrightarrow> s = t"
  by (simp add: py_def inj_map_eq_map inj_on_def)

lemma py_eq_Nil_iff [simp]: "py s = [] \<longleftrightarrow> s = []"
  by (simp add: py_def)

lemma Nil_eq_py_iff [simp]: "[] = py s \<longleftrightarrow> s = []"
  by (auto simp: py_def)

lemma spec_tier_not_fallback: "spec_tier c \<noteq> py ''Level ? (not assigned)''"
  by (simp add: spec_tier_def py_eq_iff)

lemma members_of_dict_set:
  "members_of (dict_set gs k v) k' = (if k' = k then v else members_of gs k')"
  by (simp add: members_of_def dict_get_dict_set)

lemma dict_get_Some_keys: "dict_get d k = Some v \<Longrightarrow> k \<in> set (keys d)"
  using dict_get_None_iff[of d k] by auto

lemma add_user_interactive_success:
  assumes "strip name_in \<noteq> []"
  shows "\<exists>u0 key. 
     new_User L h n (strip name_in)
        (if strip dept_in = [] then py ''unknown'' else strip dept_in)
        (if strip role_in = [] then py ''staff'' else strip role_in)
        (if strip clearance_in = [] then py ''low'' else strip clearance_in) = (h @ [u0], length h) \<and>
     key = attr_tuple (h @ [u0]) (length h) \<and>
     add_user_interactive L n h us gs name_in dept_in role_in clearance_in =
       (Some (length h), h @ [u0], us @ [length h],
        (case dict_get gs key of
           Some members \<Rightarrow> dict_set gs key (members @ [length h])
         | None \<Rightarrow> dict_set gs key [length h]))"
  using assms by (simp add: add_user_interactive_def Let_def new_User_def)

section \<open>Text and the demo data, evaluated\<close>

text \<open>
  In the lemmas and theorems below \<open>L\<close> is the parameter \<open>unicode_lower\<close>. The
  literals of the program are ASCII, so their lowercase forms do not depend on it.
\<close>

lemma strip_examples:
  "strip [0xA0] = []"
  "strip [0x85] = []"
  "strip [0x3000, 0x2003] = []"
  "strip ([0xA0] @ py '' a b '' @ [0x09]) = py ''a b''"
  by (simp_all add: strip_def isspace_def whitespace_def py_def)

lemma lower_examples:
  "lower L [0xC9] = [0xE9]"
  "lower L [0xD7] = [0xD7]"
  "lower L [0xDF] = [0xDF]"
  "lower L (py ''Low 2'') = py ''low 2''"
  "lower L [0x3A3] = L [0x3A3]"
  by (simp_all add: lower_def lower_latin1_def py_def)

lemma strip_Nil: "strip [] = []"
  by (simp add: strip_def)

lemma lower_strip_literals:
  "lower L (strip (py ''unknown'')) = py ''unknown''"
  "lower L (strip (py ''staff'')) = py ''staff''"
  "lower L (strip (py ''low'')) = py ''low''"
  "lower L (strip (py ''Engineering'')) = py ''engineering''"
  "lower L (strip (py ''Developer'')) = py ''developer''"
  "lower L (strip (py ''DEVELOPER'')) = py ''developer''"
  "lower L (strip (py ''Tester'')) = py ''tester''"
  "lower L (strip (py ''Manager'')) = py ''manager''"
  "lower L (strip (py ''Analyst'')) = py ''analyst''"
  "lower L (strip (py ''Finance'')) = py ''finance''"
  "lower L (strip (py ''HR'')) = py ''hr''"
  "lower L (strip (py ''High'')) = py ''high''"
  "lower L (strip (py ''Medium'')) = py ''medium''"
  "lower L (strip (py ''Low'')) = py ''low''"
  by (simp_all add: lower_def strip_def isspace_def whitespace_def py_def lower_latin1_def)

lemma lower_literals:
  "lower L (py ''DEVELOPER'') = py ''developer''"
  "lower L (py ''High'') = py ''high''"
  by (simp_all add: lower_def py_def lower_latin1_def)

lemma strip_literals:
  "strip (py ''New Guy'') = py ''New Guy''"
  "strip (py ''Zed'') = py ''Zed''"
  "strip (py '' Engineering '') = py ''Engineering''"
  "strip (py ''DEVELOPER'') = py ''DEVELOPER''"
  "strip (py ''High'') = py ''High''"
  by (simp_all add: strip_def isspace_def whitespace_def py_def)

lemma demo_data_eq:
  "demo_data L =
     ([\<lparr>uid = 1, name = py ''Alice Smith'', dept = py ''engineering'', role = py ''developer'', clearance = py ''high''\<rparr>,
       \<lparr>uid = 2, name = py ''Bob Jones'', dept = py ''engineering'', role = py ''developer'', clearance = py ''high''\<rparr>,
       \<lparr>uid = 3, name = py ''Charlie Ray'', dept = py ''engineering'', role = py ''tester'', clearance = py ''medium''\<rparr>,
       \<lparr>uid = 4, name = py ''Diana King'', dept = py ''hr'', role = py ''manager'', clearance = py ''high''\<rparr>,
       \<lparr>uid = 5, name = py ''Eve Stone'', dept = py ''hr'', role = py ''manager'', clearance = py ''high''\<rparr>,
       \<lparr>uid = 6, name = py ''Frank Liu'', dept = py ''finance'', role = py ''analyst'', clearance = py ''low''\<rparr>,
       \<lparr>uid = 7, name = py ''Grace Y'', dept = py ''engineering'', role = py ''developer'', clearance = py ''high''\<rparr>,
       \<lparr>uid = 8, name = py ''Hector Z'', dept = py ''finance'', role = py ''analyst'', clearance = py ''low''\<rparr>],
      [0, 1, 2, 3, 4, 5, 6, 7])"
  by (simp add: demo_data_def new_User_def User_init_def lower_strip_literals)

lemma build_classes_demo:
  "build_classes (fst (demo_data L)) (snd (demo_data L)) =
     [((py ''engineering'', py ''developer'', py ''high''), [0, 1, 6]),
      ((py ''engineering'', py ''tester'', py ''medium''), [2]),
      ((py ''hr'', py ''manager'', py ''high''), [3, 4]),
      ((py ''finance'', py ''analyst'', py ''low''), [5, 7])]"
  by (simp add: demo_data_eq build_classes_def defaultdict_append_def attr_tuple_def py_eq_iff)

lemma assign_permissions_demo:
  "assign_permissions (build_classes (fst (demo_data L)) (snd (demo_data L))) =
     [((py ''engineering'', py ''developer'', py ''high''), py ''Level 3 Access''),
      ((py ''engineering'', py ''tester'', py ''medium''), py ''Level 2 Access''),
      ((py ''hr'', py ''manager'', py ''high''), py ''Level 3 Access''),
      ((py ''finance'', py ''analyst'', py ''low''), py ''Level 1 Access'')]"
  unfolding build_classes_demo by (simp add: assign_permissions_def py_eq_iff Let_def)

lemma main_init_eq:
  "main_init L =
     \<lparr>objs = fst (demo_data L), users = snd (demo_data L),
      groups = build_classes (fst (demo_data L)) (snd (demo_data L)),
      perms = assign_permissions (build_classes (fst (demo_data L)) (snd (demo_data L))),
      next_uid = 9\<rparr>"
proof -
  have "Max (set (map (\<lambda>u. uid (fst (demo_data L) ! u)) (snd (demo_data L)))) = 8"
    by (simp add: demo_data_eq)
  then show ?thesis
    by (simp add: main_init_def Let_def case_prod_beta)
qed

lemma add_new_guy_demo:
  "add_user_interactive L 9 (fst (demo_data L)) (snd (demo_data L))
       (build_classes (fst (demo_data L)) (snd (demo_data L))) (py ''New Guy'') [] [] []
     = (Some 8,
        fst (demo_data L) @ [\<lparr>uid = 9, name = py ''New Guy'', dept = py ''unknown'', role = py ''staff'',
                           clearance = py ''low''\<rparr>],
        snd (demo_data L) @ [8],
        build_classes (fst (demo_data L)) (snd (demo_data L)) @ [((py ''unknown'', py ''staff'', py ''low''), [8])])"
  unfolding build_classes_demo
  by (simp add: add_user_interactive_def strip_literals strip_Nil new_User_def
        User_init_def lower_strip_literals attr_tuple_def demo_data_eq Let_def)

lemma add_zed_demo:
  "add_user_interactive L 9 (fst (demo_data L)) (snd (demo_data L))
       (build_classes (fst (demo_data L)) (snd (demo_data L)))
       (py ''Zed'') (py '' Engineering '') (py ''DEVELOPER'') (py ''High'')
     = (Some 8,
        fst (demo_data L) @ [\<lparr>uid = 9, name = py ''Zed'', dept = py ''engineering'', role = py ''developer'',
                           clearance = py ''high''\<rparr>],
        snd (demo_data L) @ [8],
        [((py ''engineering'', py ''developer'', py ''high''), [0, 1, 6, 8]),
         ((py ''engineering'', py ''tester'', py ''medium''), [2]),
         ((py ''hr'', py ''manager'', py ''high''), [3, 4]),
         ((py ''finance'', py ''analyst'', py ''low''), [5, 7])])"
  unfolding build_classes_demo
  by (simp add: add_user_interactive_def strip_literals new_User_def
        User_init_def lower_strip_literals lower_literals attr_tuple_def demo_data_eq Let_def)

lemma main_add_user_new_guy:
  "perms (main_add_user L (py ''New Guy'') [] [] [] (main_init L))
     = perms (main_init L) @ [((py ''unknown'', py ''staff'', py ''low''), py ''Level 1 Access'')]"
proof -
  have a: "assign_permissions (build_classes (fst (demo_data L)) (snd (demo_data L))
              @ [((py ''unknown'', py ''staff'', py ''low''), [8])])
        = assign_permissions (build_classes (fst (demo_data L)) (snd (demo_data L)))
              @ [((py ''unknown'', py ''staff'', py ''low''), py ''Level 1 Access'')]"
    unfolding assign_permissions_demo unfolding build_classes_demo
    by (simp add: assign_permissions_def Let_def)
  show ?thesis
    unfolding main_init_eq main_add_user_def
    by (simp add: add_new_guy_demo a)
qed

section \<open>The classifier partitions its input\<close>

text \<open>
  Claim C1. For every list of users, \<open>build_classes\<close> partitions the input. The keys
  of the grouping are pairwise different, so there is one group per key. The members
  of all groups together are the entries of the input list, each entry once: nothing
  is duplicated and nothing is omitted. Every user of the input finds its own key among
  the keys, and a user occurs in the group of key \<open>k\<close> as often as it occurs in the
  input when \<open>k\<close> is its (department, role, clearance) triple, and not at all
  otherwise. A user listed once is therefore in exactly one group, exactly once.
\<close>

theorem build_classes_partition:
  "distinct (keys (build_classes h us)) \<and>
   mset (concat (map snd (build_classes h us))) = mset us \<and>
   (\<forall>u \<in> set us. attr_tuple h u \<in> set (keys (build_classes h us))) \<and>
   (\<forall>(k, ms) \<in> set (build_classes h us).
      \<forall>u. count_list ms u = (if attr_tuple h u = k then count_list us u else 0)) \<and>
   (distinct us \<longrightarrow> distinct (concat (map snd (build_classes h us))))"
proof -
  let ?f = "attr_tuple h"
  let ?ks = "first_occ (map ?f us)"
  have d: "distinct ?ks" by (rule distinct_first_occ)
  have "concat (map snd (build_classes h us)) = concat (map (\<lambda>k. filter (\<lambda>u. ?f u = k) us) ?ks)"
    by (simp add: build_classes_eq comp_def)
  also have "mset \<dots> = mset (filter (\<lambda>u. ?f u \<in> set ?ks) us)"
    by (rule mset_concat_filter_keys[OF d])
  also have "filter (\<lambda>u. ?f u \<in> set ?ks) us = us"
    by (simp add: set_first_occ)
  finally have m: "mset (concat (map snd (build_classes h us))) = mset us" .
  have c: "\<forall>(k, ms) \<in> set (build_classes h us).
      \<forall>u. count_list ms u = (if ?f u = k then count_list us u else 0)"
    by (auto simp: build_classes_eq count_list_filter)
  have dk: "distinct (keys (build_classes h us))"
    unfolding keys_build_classes by (rule d)
  have ku: "\<forall>u \<in> set us. ?f u \<in> set (keys (build_classes h us))"
    unfolding keys_build_classes by (simp add: set_first_occ)
  have du: "distinct us \<longrightarrow> distinct (concat (map snd (build_classes h us)))"
    using mset_eq_imp_distinct_iff[OF m] by blast
  from dk m ku c du show ?thesis by blast
qed

theorem build_classes_partition_witness:
  "\<forall>L. build_classes (fst (demo_data L)) (snd (demo_data L)) =
     [((py ''engineering'', py ''developer'', py ''high''), [0, 1, 6]),
      ((py ''engineering'', py ''tester'', py ''medium''), [2]),
      ((py ''hr'', py ''manager'', py ''high''), [3, 4]),
      ((py ''finance'', py ''analyst'', py ''low''), [5, 7])] \<and>
   mset (concat (map snd (build_classes (fst (demo_data L)) (snd (demo_data L))))) = mset (snd (demo_data L)) \<and>
   attr_tuple (fst (demo_data L)) 6 = (py ''engineering'', py ''developer'', py ''high'') \<and>
   count_list [0, 1, 6] (6::nat) = count_list (snd (demo_data L)) 6 \<and>
   count_list [2] (6::nat) = 0" (is "\<forall>L. ?P L")
proof
  fix L
  let ?h = "fst (demo_data L)" and ?us = "snd (demo_data L)"
  note t = build_classes_partition[of ?h ?us]
  have a: "attr_tuple ?h 6 = (py ''engineering'', py ''developer'', py ''high'')"
    by (simp add: demo_data_eq attr_tuple_def)
  from t have c: "\<forall>(k, ms) \<in> set (build_classes ?h ?us).
      \<forall>u. count_list ms u = (if attr_tuple ?h u = k then count_list ?us u else 0)"
    by blast
  have m1: "((py ''engineering'', py ''developer'', py ''high''), [0, 1, 6]) \<in> set (build_classes ?h ?us)"
    and m2: "((py ''engineering'', py ''tester'', py ''medium''), [2]) \<in> set (build_classes ?h ?us)"
    unfolding build_classes_demo by simp_all
  from c m1 have "count_list [0, 1, 6] (6::nat) =
      (if attr_tuple ?h 6 = (py ''engineering'', py ''developer'', py ''high'') then count_list ?us 6 else 0)"
    by blast
  then have c1: "count_list [0, 1, 6] (6::nat) = count_list ?us 6"
    by (simp only: a simp_thms if_True)
  from c m2 have "count_list [2] (6::nat) =
      (if attr_tuple ?h 6 = (py ''engineering'', py ''tester'', py ''medium'') then count_list ?us 6 else 0)"
    by blast
  then have c2: "count_list [2] (6::nat) = 0"
    unfolding a by simp
  from t have "mset (concat (map snd (build_classes ?h ?us))) = mset ?us"
    by blast
  with c1 c2 a build_classes_demo show "?P L" by blast
qed

section \<open>Order of the groups and of their members\<close>

text \<open>
  Claim C7. For every list of users, the keys of \<open>build_classes\<close> are the keys of
  the users in the order of their first occurrence: a key \<open>k1\<close> of the mapping stands
  before a key \<open>k2\<close> of the mapping exactly when the first user with key \<open>k1\<close> stands
  before the first user with key \<open>k2\<close> in the input. The members of the group of
  \<open>k\<close> are the users of the input with key \<open>k\<close>, in the order of the input.
\<close>

theorem build_classes_first_occurrence_order:
  "keys (build_classes h us) = first_occ (map (attr_tuple h) us) \<and>
   (\<forall>k1 \<in> set (keys (build_classes h us)). \<forall>k2 \<in> set (keys (build_classes h us)).
      first_index (\<lambda>k. k = k1) (keys (build_classes h us))
        < first_index (\<lambda>k. k = k2) (keys (build_classes h us))
      \<longleftrightarrow>
      first_index (\<lambda>u. attr_tuple h u = k1) us < first_index (\<lambda>u. attr_tuple h u = k2) us) \<and>
   (\<forall>(k, ms) \<in> set (build_classes h us). ms = filter (\<lambda>u. attr_tuple h u = k) us)"
proof -
  have o: "first_index (\<lambda>k. k = k1) (keys (build_classes h us))
        < first_index (\<lambda>k. k = k2) (keys (build_classes h us))
      \<longleftrightarrow>
      first_index (\<lambda>u. attr_tuple h u = k1) us < first_index (\<lambda>u. attr_tuple h u = k2) us"
    for k1 k2
    by (simp add: keys_build_classes first_index_first_occ_order first_index_map)
  have m: "\<forall>(k, ms) \<in> set (build_classes h us). ms = filter (\<lambda>u. attr_tuple h u = k) us"
    by (auto simp: build_classes_eq)
  show ?thesis using o m keys_build_classes by blast
qed

theorem build_classes_first_occurrence_order_witness:
  "\<forall>L. keys (build_classes (fst (demo_data L)) (snd (demo_data L))) =
     [(py ''engineering'', py ''developer'', py ''high''), (py ''engineering'', py ''tester'', py ''medium''),
      (py ''hr'', py ''manager'', py ''high''), (py ''finance'', py ''analyst'', py ''low'')] \<and>
   first_index (\<lambda>k. k = (py ''hr'', py ''manager'', py ''high'')) (keys (build_classes (fst (demo_data L)) (snd (demo_data L)))) = 2 \<and>
   first_index (\<lambda>k. k = (py ''finance'', py ''analyst'', py ''low'')) (keys (build_classes (fst (demo_data L)) (snd (demo_data L)))) = 3 \<and>
   first_index (\<lambda>u. attr_tuple (fst (demo_data L)) u = (py ''hr'', py ''manager'', py ''high'')) (snd (demo_data L))
     < first_index (\<lambda>u. attr_tuple (fst (demo_data L)) u = (py ''finance'', py ''analyst'', py ''low'')) (snd (demo_data L)) \<and>
   [0, 1, 6] = filter (\<lambda>u. attr_tuple (fst (demo_data L)) u = (py ''engineering'', py ''developer'', py ''high'')) (snd (demo_data L))" (is "\<forall>L. ?P L")
proof
  fix L
  let ?h = "fst (demo_data L)" and ?us = "snd (demo_data L)"
  let ?hr = "(py ''hr'', py ''manager'', py ''high'')" and ?fin = "(py ''finance'', py ''analyst'', py ''low'')"
  note t = build_classes_first_occurrence_order[of ?h ?us]
  have ks: "keys (build_classes ?h ?us) =
     [(py ''engineering'', py ''developer'', py ''high''), (py ''engineering'', py ''tester'', py ''medium''), ?hr, ?fin]"
    unfolding build_classes_demo by (simp add: keys_def)
  have i1: "first_index (\<lambda>k. k = ?hr) (keys (build_classes ?h ?us)) = 2"
    and i2: "first_index (\<lambda>k. k = ?fin) (keys (build_classes ?h ?us)) = 3"
    unfolding ks by (simp_all add: first_index_def)
  have k1: "?hr \<in> set (keys (build_classes ?h ?us))" and k2: "?fin \<in> set (keys (build_classes ?h ?us))"
    unfolding ks by simp_all
  from t k1 k2 have "first_index (\<lambda>k. k = ?hr) (keys (build_classes ?h ?us))
        < first_index (\<lambda>k. k = ?fin) (keys (build_classes ?h ?us))
      \<longleftrightarrow> first_index (\<lambda>u. attr_tuple ?h u = ?hr) ?us < first_index (\<lambda>u. attr_tuple ?h u = ?fin) ?us"
    by blast
  then have o: "first_index (\<lambda>u. attr_tuple ?h u = ?hr) ?us < first_index (\<lambda>u. attr_tuple ?h u = ?fin) ?us"
    unfolding i1 i2 by simp
  have m1: "((py ''engineering'', py ''developer'', py ''high''), [0, 1, 6]) \<in> set (build_classes ?h ?us)"
    unfolding build_classes_demo by simp
  from t have "\<forall>(k, ms) \<in> set (build_classes ?h ?us). ms = filter (\<lambda>u. attr_tuple ?h u = k) ?us"
    by blast
  with m1 have f: "[0, 1, 6] = filter (\<lambda>u. attr_tuple ?h u = (py ''engineering'', py ''developer'', py ''high'')) ?us"
    by blast
  from ks i1 i2 o f show "?P L" by blast
qed

section \<open>The relation checks\<close>

text \<open>
  Claim C8. For every list of users, \<open>check_reflexive\<close> on the users and the
  grouping \<open>build_classes\<close> makes of them returns true, and \<open>check_sym_trans\<close>
  returns (true, true) for every input.
\<close>

theorem check_reflexive_build_classes:
  "check_reflexive h us (build_classes h us) = True \<and> check_sym_trans us' = (True, True)"
  by (simp add: check_reflexive_iff members_of_build_classes check_sym_trans_def)

theorem check_reflexive_build_classes_witness:
  "\<forall>L. check_reflexive (fst (demo_data L)) (snd (demo_data L))
     [((py ''engineering'', py ''developer'', py ''high''), [0, 1, 6]),
      ((py ''engineering'', py ''tester'', py ''medium''), [2]),
      ((py ''hr'', py ''manager'', py ''high''), [3, 4]),
      ((py ''finance'', py ''analyst'', py ''low''), [5, 7])] = True \<and>
   check_sym_trans (snd (demo_data L)) = (True, True)" (is "\<forall>L. ?P L")
proof
  fix L
  show "?P L"
    using check_reflexive_build_classes[of "fst (demo_data L)" "snd (demo_data L)" "snd (demo_data L)"]
    unfolding build_classes_demo .
qed

section \<open>The permission tiers\<close>

text \<open>
  Claim C2. For every grouping and every key of it, whatever its clearance text,
  \<open>assign_permissions\<close> assigns the key one tier, by this precedence: clearance
  "high", "top", "3" or "level3" gives "Level 3 Access"; otherwise "medium", "2" or
  "level2" gives "Level 2 Access"; every other clearance, "low", the empty text and any
  unrecognised text included, gives "Level 1 Access". The tier is one of these three.
\<close>

theorem assign_permissions_tier:
  "(d, r, clr) \<in> set (keys gs) \<Longrightarrow>
   dict_get (assign_permissions gs) (d, r, clr) =
     Some (if clr \<in> {py ''high'', py ''top'', py ''3'', py ''level3''} then py ''Level 3 Access''
           else if clr \<in> {py ''medium'', py ''2'', py ''level2''} then py ''Level 2 Access''
           else py ''Level 1 Access'') \<and>
   dict_get (assign_permissions gs) (d, r, clr) \<in>
     {Some (py ''Level 1 Access''), Some (py ''Level 2 Access''), Some (py ''Level 3 Access'')}"
  by (simp add: assign_permissions_def dict_get_assign_permissions_loop spec_tier_def)

theorem assign_permissions_tier_witness:
  "dict_get (assign_permissions [((py ''eng'', py ''dev'', py ''top''), [0]), (([], [], []), [1]),
      ((py ''eng'', py ''dev'', py ''level2''), [2]), ((py ''x'', py ''y'', py ''low''), [3])]) (py ''eng'', py ''dev'', py ''top'')
     = Some (py ''Level 3 Access'') \<and>
   dict_get (assign_permissions [((py ''eng'', py ''dev'', py ''top''), [0]), (([], [], []), [1]),
      ((py ''eng'', py ''dev'', py ''level2''), [2]), ((py ''x'', py ''y'', py ''low''), [3])]) ([], [], [])
     = Some (py ''Level 1 Access'') \<and>
   dict_get (assign_permissions [((py ''eng'', py ''dev'', py ''top''), [0]), (([], [], []), [1]),
      ((py ''eng'', py ''dev'', py ''level2''), [2]), ((py ''x'', py ''y'', py ''low''), [3])]) (py ''eng'', py ''dev'', py ''level2'')
     = Some (py ''Level 2 Access'')"
proof -
  let ?gs = "[((py ''eng'', py ''dev'', py ''top''), [0]), (([], [], []), [1]),
      ((py ''eng'', py ''dev'', py ''level2''), [2]), ((py ''x'', py ''y'', py ''low''), [3::nat])]"
  have k1: "(py ''eng'', py ''dev'', py ''top'') \<in> set (keys ?gs)"
    and k2: "([], [], []) \<in> set (keys ?gs)"
    and k3: "(py ''eng'', py ''dev'', py ''level2'') \<in> set (keys ?gs)"
    by (simp_all add: keys_def)
  show ?thesis
    using assign_permissions_tier[OF k1] assign_permissions_tier[OF k2] assign_permissions_tier[OF k3]
    by simp
qed

text \<open>
  Claim C10. For every grouping, the mapping of \<open>assign_permissions\<close> has the keys
  of the grouping and no other; when the keys of the grouping are pairwise different,
  as they are in a dictionary, they come in the same order. \<open>print_groups\<close> on a
  grouping and the permissions computed from it shows every group, each with the tier
  the mapping holds for its key, never with the fallback text "Level ? (not assigned)".
\<close>

theorem assign_permissions_same_keys:
  "set (keys (assign_permissions gs)) = set (keys gs) \<and>
   (distinct (keys gs) \<longrightarrow> keys (assign_permissions gs) = keys gs) \<and>
   map (\<lambda>(g, k, perm_text, ms). (k, ms)) (print_groups gs (assign_permissions gs)) = gs \<and>
   (\<forall>(g, k, perm_text, ms) \<in> set (print_groups gs (assign_permissions gs)).
      dict_get (assign_permissions gs) k = Some perm_text \<and> perm_text \<noteq> py ''Level ? (not assigned)'')"
proof -
  have s: "set (keys (assign_permissions gs)) = set (keys gs)"
    unfolding assign_permissions_def set_keys_assign_permissions_loop by (simp add: keys_def)
  have e: "keys ([] :: perms) = []" by (simp add: keys_def)
  have o: "distinct (keys gs) \<longrightarrow> keys (assign_permissions gs) = keys gs"
    unfolding assign_permissions_def using keys_assign_permissions_loop[of gs "[]"] by (simp add: e)
  have m: "map (\<lambda>(g, k, perm_text, ms). (k, ms)) (print_groups gs ps) = gs" for ps
    by (simp add: print_groups_def print_groups_loop_groups)
  have l: "dict_get (assign_permissions gs) k = Some (spec_tier (snd (snd k)))"
    if "k \<in> set (keys gs)" for k
    using that by (simp add: assign_permissions_def dict_get_assign_permissions_loop)
  have p: "\<forall>(g, k, perm_text, ms) \<in> set (print_groups gs (assign_permissions gs)).
      dict_get (assign_permissions gs) k = Some perm_text \<and> perm_text \<noteq> py ''Level ? (not assigned)''"
  proof (clarify)
    fix g k t ms
    assume "(g, k, t, ms) \<in> set (print_groups gs (assign_permissions gs))"
    then have "(k, ms) \<in> set gs"
      and t: "t = (case dict_get (assign_permissions gs) k of Some p \<Rightarrow> p | None \<Rightarrow> py ''Level ? (not assigned)'')"
      unfolding print_groups_def by (auto dest: print_groups_loop_entry)
    then have "k \<in> set (keys gs)" by (force simp: keys_def)
    from l[OF this] t
    show "dict_get (assign_permissions gs) k = Some t \<and> t \<noteq> py ''Level ? (not assigned)''"
      by (simp add: spec_tier_not_fallback)
  qed
  from s o m p show ?thesis by blast
qed

theorem assign_permissions_same_keys_witness:
  "\<forall>L. keys (assign_permissions (build_classes (fst (demo_data L)) (snd (demo_data L)))) =
     [(py ''engineering'', py ''developer'', py ''high''), (py ''engineering'', py ''tester'', py ''medium''),
      (py ''hr'', py ''manager'', py ''high''), (py ''finance'', py ''analyst'', py ''low'')] \<and>
   keys (build_classes (fst (demo_data L)) (snd (demo_data L))) =
     [(py ''engineering'', py ''developer'', py ''high''), (py ''engineering'', py ''tester'', py ''medium''),
      (py ''hr'', py ''manager'', py ''high''), (py ''finance'', py ''analyst'', py ''low'')] \<and>
   print_groups (build_classes (fst (demo_data L)) (snd (demo_data L)))
               (assign_permissions (build_classes (fst (demo_data L)) (snd (demo_data L)))) =
     [(1, (py ''engineering'', py ''developer'', py ''high''), py ''Level 3 Access'', [0, 1, 6]),
      (2, (py ''engineering'', py ''tester'', py ''medium''), py ''Level 2 Access'', [2]),
      (3, (py ''hr'', py ''manager'', py ''high''), py ''Level 3 Access'', [3, 4]),
      (4, (py ''finance'', py ''analyst'', py ''low''), py ''Level 1 Access'', [5, 7])]" (is "\<forall>L. ?P L")
proof
  fix L
  let ?gs = "build_classes (fst (demo_data L)) (snd (demo_data L))"
  have ks: "keys ?gs =
     [(py ''engineering'', py ''developer'', py ''high''), (py ''engineering'', py ''tester'', py ''medium''),
      (py ''hr'', py ''manager'', py ''high''), (py ''finance'', py ''analyst'', py ''low'')]"
    unfolding build_classes_demo by (simp add: keys_def)
  then have d: "distinct (keys ?gs)" by simp
  from assign_permissions_same_keys[of ?gs] d have "keys (assign_permissions ?gs) = keys ?gs"
    by blast
  moreover have "print_groups ?gs (assign_permissions ?gs) =
     [(1, (py ''engineering'', py ''developer'', py ''high''), py ''Level 3 Access'', [0, 1, 6]),
      (2, (py ''engineering'', py ''tester'', py ''medium''), py ''Level 2 Access'', [2]),
      (3, (py ''hr'', py ''manager'', py ''high''), py ''Level 3 Access'', [3, 4]),
      (4, (py ''finance'', py ''analyst'', py ''low''), py ''Level 1 Access'', [5, 7])]"
    unfolding assign_permissions_demo unfolding build_classes_demo
    by (simp add: print_groups_def py_eq_iff Let_def)
  ultimately show "?P L" using ks by simp
qed

section \<open>The export\<close>



section \<open>Adding a user\<close>

text \<open>
  Claim C3. In every session state, \<open>add_user_interactive\<close> with a name that is
  empty after stripping fails: it returns \<open>None\<close>, the result the program reports as
  "Name cannot be empty.", and the object store, the user list and the grouping are
  what they were. The menu step around it leaves the whole session unchanged: no user
  and no group entry is created.
\<close>

theorem add_user_empty_name:
  "strip name_in = [] \<Longrightarrow>
   add_user_interactive L n h us gs name_in dept_in role_in clearance_in = (None, h, us, gs) \<and>
   main_add_user L name_in dept_in role_in clearance_in s = s"
  by (simp add: add_user_interactive_def main_add_user_def)

theorem add_user_empty_name_witness:
  "\<forall>L. strip [] = [] \<and> strip [0x20, 0xA0, 0x3000, 0x09] = [] \<and>
   add_user_interactive L 9 (fst (demo_data L)) (snd (demo_data L))
       (build_classes (fst (demo_data L)) (snd (demo_data L)))
       [] (py ''Eng'') (py ''Dev'') (py ''Low'')
     = (None, fst (demo_data L), snd (demo_data L),
        build_classes (fst (demo_data L)) (snd (demo_data L))) \<and>
   add_user_interactive L 9 (fst (demo_data L)) (snd (demo_data L))
       (build_classes (fst (demo_data L)) (snd (demo_data L)))
       [0x20, 0xA0, 0x3000, 0x09] (py ''Eng'') (py ''Dev'') (py ''Low'')
     = (None, fst (demo_data L), snd (demo_data L),
        build_classes (fst (demo_data L)) (snd (demo_data L))) \<and>
   main_add_user L [0x20, 0xA0, 0x3000, 0x09] (py ''Eng'') (py ''Dev'') (py ''Low'') (main_init L)
     = main_init L"
  (is "\<forall>L. ?P L")
proof
  fix L
  have e: "strip [0x20, 0xA0, 0x3000, 0x09] = []"
    by (simp add: strip_def isspace_def whitespace_def)
  from add_user_empty_name[OF e] add_user_empty_name[OF strip_Nil] e strip_Nil
  show "?P L" by blast
qed

text \<open>
  Claim C4. With a name that is not empty and department, role and clearance empty
  after stripping, \<open>add_user_interactive\<close> creates a user with the given id, the
  stripped name, department "unknown", role "staff" and clearance "low", and appends it
  to the user list. When the grouping has no key ("unknown", "staff", "low") a new
  group with that key and the new user as its only member is added at the end; when it
  has one, the keys stay and the user is appended to that group.
\<close>

theorem add_user_defaults:
  "strip name_in \<noteq> [] \<Longrightarrow> strip dept_in = [] \<Longrightarrow> strip role_in = [] \<Longrightarrow>
   strip clearance_in = [] \<Longrightarrow>
   (case add_user_interactive L n h us gs name_in dept_in role_in clearance_in of
      (new_u, h', us', gs') \<Rightarrow>
        new_u = Some (length h) \<and>
        h' = h @ [\<lparr>uid = n, name = strip name_in, dept = py ''unknown'', role = py ''staff'',
                   clearance = py ''low''\<rparr>] \<and>
        us' = us @ [length h] \<and>
        ((py ''unknown'', py ''staff'', py ''low'') \<notin> set (keys gs) \<longrightarrow>
           gs' = gs @ [((py ''unknown'', py ''staff'', py ''low''), [length h])]) \<and>
        ((py ''unknown'', py ''staff'', py ''low'') \<in> set (keys gs) \<longrightarrow>
           keys gs' = keys gs \<and>
           members_of gs' (py ''unknown'', py ''staff'', py ''low'')
             = members_of gs (py ''unknown'', py ''staff'', py ''low'') @ [length h]))"
proof -
  assume a: "strip name_in \<noteq> []" "strip dept_in = []" "strip role_in = []" "strip clearance_in = []"
  let ?k = "(py ''unknown'', py ''staff'', py ''low'')"
  let ?u = "\<lparr>uid = n, name = strip name_in, dept = py ''unknown'', role = py ''staff'', clearance = py ''low''\<rparr>"
  have nu: "new_User L h n (strip name_in) (py ''unknown'') (py ''staff'') (py ''low'') = (h @ [?u], length h)"
    by (simp add: new_User_def User_init_def lower_strip_literals)
  have at: "attr_tuple (h @ [?u]) (length h) = ?k"
    by (simp add: attr_tuple_def)
  have r: "add_user_interactive L n h us gs name_in dept_in role_in clearance_in =
      (Some (length h), h @ [?u], us @ [length h],
       (case dict_get gs ?k of Some members \<Rightarrow> dict_set gs ?k (members @ [length h])
                             | None \<Rightarrow> dict_set gs ?k [length h]))"
    using a by (simp add: add_user_interactive_def Let_def nu at split: option.split)
  show ?thesis
  proof (cases "dict_get gs ?k")
    case None
    then have "?k \<notin> set (keys gs)" by (simp add: dict_get_None_iff)
    with None show ?thesis by (simp add: r dict_set_new)
  next
    case (Some ms)
    then have "?k \<in> set (keys gs)" by (rule dict_get_Some_keys)
    with Some show ?thesis
      by (simp add: r keys_dict_set members_of_dict_set) (simp add: members_of_def)
  qed
qed

theorem add_user_defaults_witness:
  "\<forall>L. strip (py ''New Guy'') \<noteq> [] \<and> strip [] = [] \<and>
   strip [0xA0] = [] \<and> strip [0x3000, 0x20] = [] \<and> strip [0x85] = [] \<and>
   (py ''unknown'', py ''staff'', py ''low'') \<notin> set (keys (build_classes (fst (demo_data L)) (snd (demo_data L)))) \<and>
   length (fst (demo_data L)) = 8 \<and>
   add_user_interactive L 9 (fst (demo_data L)) (snd (demo_data L))
       (build_classes (fst (demo_data L)) (snd (demo_data L))) (py ''New Guy'') [] [] []
     = (Some 8,
        fst (demo_data L) @ [\<lparr>uid = 9, name = py ''New Guy'', dept = py ''unknown'', role = py ''staff'',
                           clearance = py ''low''\<rparr>],
        snd (demo_data L) @ [8],
        build_classes (fst (demo_data L)) (snd (demo_data L)) @ [((py ''unknown'', py ''staff'', py ''low''), [8])]) \<and>
   add_user_interactive L 9 (fst (demo_data L)) (snd (demo_data L))
       (build_classes (fst (demo_data L)) (snd (demo_data L))) (py ''New Guy'') [0xA0] [0x3000, 0x20] [0x85]
     = (Some 8,
        fst (demo_data L) @ [\<lparr>uid = 9, name = py ''New Guy'', dept = py ''unknown'', role = py ''staff'',
                           clearance = py ''low''\<rparr>],
        snd (demo_data L) @ [8],
        build_classes (fst (demo_data L)) (snd (demo_data L)) @ [((py ''unknown'', py ''staff'', py ''low''), [8])])"
  (is "\<forall>L. ?P L")
proof
  fix L
  let ?h = "fst (demo_data L)" and ?us = "snd (demo_data L)"
  let ?gs = "build_classes (fst (demo_data L)) (snd (demo_data L))"
  let ?k = "(py ''unknown'', py ''staff'', py ''low'')"
  have n: "strip (py ''New Guy'') \<noteq> []"
    by (simp add: strip_literals)
  have sn: "strip (py ''New Guy'') = py ''New Guy''"
    by (rule strip_literals)
  have e: "strip [] = []" by (rule strip_Nil)
  have b: "strip [0xA0] = []" "strip [0x3000, 0x20] = []" "strip [0x85] = []"
    by (simp_all add: strip_def isspace_def whitespace_def)
  have k: "?k \<notin> set (keys ?gs)"
    unfolding build_classes_demo by (simp add: keys_def)
  have l: "length ?h = 8" by (simp add: demo_data_eq)
  have g: "add_user_interactive L 9 ?h ?us ?gs (py ''New Guy'') d r c =
      (Some 8, ?h @ [\<lparr>uid = 9, name = py ''New Guy'', dept = py ''unknown'', role = py ''staff'',
                       clearance = py ''low''\<rparr>], ?us @ [8], ?gs @ [(?k, [8])])"
    if d: "strip d = []" and r: "strip r = []" and c: "strip c = []" for d r c
  proof -
    obtain new_u h' us' gs' where
      res: "add_user_interactive L 9 ?h ?us ?gs (py ''New Guy'') d r c = (new_u, h', us', gs')"
      by (cases "add_user_interactive L 9 ?h ?us ?gs (py ''New Guy'') d r c") auto
    from add_user_defaults[OF n d r c, where L = L and n = 9 and h = ?h and us = ?us and gs = ?gs] k
    have "new_u = Some (length ?h) \<and>
          h' = ?h @ [\<lparr>uid = 9, name = strip (py ''New Guy''), dept = py ''unknown'', role = py ''staff'',
                       clearance = py ''low''\<rparr>] \<and>
          us' = ?us @ [length ?h] \<and> gs' = ?gs @ [(?k, [length ?h])]"
      unfolding res by simp
    then show ?thesis
      unfolding res l sn by simp
  qed
  from n e b k l g[OF e e e] g[OF b] show "?P L" by blast
qed

section \<open>Adding a user and the permission mapping\<close>

text \<open>
  Claim C5 says that the add-user operation leaves the permission mapping as it was
  until recompute is invoked. The menu step does not: after a successful add it
  reassigns \<open>perms\<close> from the updated grouping. Adding "New Guy" with empty
  department, role and clearance to the initial session extends the mapping by the
  entry for ("unknown", "staff", "low"). All text of this example is ASCII, so the
  parameter \<open>unicode_lower\<close> is never consulted: \<open>main_add_user_new_guy\<close> holds
  for every value of it, and the theorem takes the identity.
\<close>

theorem main_add_user_counterexample:
  "strip (py ''New Guy'') \<noteq> [] \<and>
   perms (main_add_user id (py ''New Guy'') [] [] [] (main_init id))
     = perms (main_init id) @ [((py ''unknown'', py ''staff'', py ''low''), py ''Level 1 Access'')] \<and>
   perms (main_add_user id (py ''New Guy'') [] [] [] (main_init id)) \<noteq> perms (main_init id)"
  using main_add_user_new_guy[of id] by (simp add: strip_literals)

text \<open>
  Claim C5, amended. A successful add (the stripped name is not empty) updates the
  grouping incrementally: the new user, allocated at the end of the store, is appended
  to the user list; if its key is a key of the grouping the keys stay as they are, and
  otherwise a group with that key and the user as only member is added at the end; in
  both cases the group of that key gains the user as last member and every other group
  keeps its members. \<open>add_user_interactive\<close> itself returns no permission mapping.
  The menu step then sets \<open>perms\<close> to \<open>assign_permissions\<close> of the updated
  grouping and increments \<open>next_uid\<close>, so the tier of the new or modified group is in
  the mapping at once. A failed add (the stripped name is empty) leaves the session,
  and with it the permission mapping, unchanged.
\<close>

theorem main_add_user_step:
  "(strip name_in = [] \<longrightarrow> main_add_user L name_in dept_in role_in clearance_in s = s) \<and>
   (strip name_in \<noteq> [] \<longrightarrow>
    (case add_user_interactive L (next_uid s) (objs s) (users s) (groups s)
           name_in dept_in role_in clearance_in of
      (new_u, h', us', gs') \<Rightarrow>
        new_u = Some (length (objs s)) \<and>
        us' = users s @ [length (objs s)] \<and>
        (attr_tuple h' (length (objs s)) \<in> set (keys (groups s)) \<longrightarrow> keys gs' = keys (groups s)) \<and>
        (attr_tuple h' (length (objs s)) \<notin> set (keys (groups s)) \<longrightarrow>
           gs' = groups s @ [(attr_tuple h' (length (objs s)), [length (objs s)])]) \<and>
        (\<forall>k. members_of gs' k =
           (if k = attr_tuple h' (length (objs s)) then members_of (groups s) k @ [length (objs s)]
            else members_of (groups s) k)) \<and>
        main_add_user L name_in dept_in role_in clearance_in s =
          s\<lparr>objs := h', users := us', groups := gs', next_uid := next_uid s + 1,
            perms := assign_permissions gs'\<rparr> \<and>
        dict_get (perms (main_add_user L name_in dept_in role_in clearance_in s))
                 (attr_tuple h' (length (objs s)))
          = Some (spec_tier (snd (snd (attr_tuple h' (length (objs s))))))))"
  (is "(_ \<longrightarrow> ?F) \<and> (_ \<longrightarrow> ?S)")
proof (intro conjI impI)
  assume "strip name_in = []"
  then show ?F
    by (simp add: add_user_interactive_def main_add_user_def)
next
  assume a: "strip name_in \<noteq> []"
  let ?u = "length (objs s)"
  from add_user_interactive_success[OF a, where L = L and h = "objs s" and n = "next_uid s"
      and dept_in = dept_in and role_in = role_in and clearance_in = clearance_in
      and us = "users s" and gs = "groups s"]
  obtain u0 key where key: "key = attr_tuple (objs s @ [u0]) ?u"
    and r: "add_user_interactive L (next_uid s) (objs s) (users s) (groups s)
              name_in dept_in role_in clearance_in =
       (Some ?u, objs s @ [u0], users s @ [?u],
        (case dict_get (groups s) key of
           Some members \<Rightarrow> dict_set (groups s) key (members @ [?u])
         | None \<Rightarrow> dict_set (groups s) key [?u]))"
    by blast
  let ?gs' = "case dict_get (groups s) key of
           Some members \<Rightarrow> dict_set (groups s) key (members @ [?u])
         | None \<Rightarrow> dict_set (groups s) key [?u]"
  have k1: "key \<in> set (keys (groups s)) \<longrightarrow> keys ?gs' = keys (groups s)"
    by (simp add: keys_dict_set split: option.split)
  have k2: "key \<notin> set (keys (groups s)) \<longrightarrow> ?gs' = groups s @ [(key, [?u])]"
    using dict_get_None_iff[of "groups s" key] by (auto simp: dict_set_new split: option.split)
  have m: "\<forall>k. members_of ?gs' k =
           (if k = key then members_of (groups s) k @ [?u] else members_of (groups s) k)"
    by (auto simp: members_of_dict_set split: option.split) (simp_all add: members_of_def)
  have kin: "key \<in> set (keys ?gs')"
    by (simp add: keys_dict_set split: option.split)
  have p: "dict_get (assign_permissions ?gs') key = Some (spec_tier (snd (snd key)))"
    unfolding assign_permissions_def dict_get_assign_permissions_loop using kin by simp
  have ma: "main_add_user L name_in dept_in role_in clearance_in s =
      s\<lparr>objs := objs s @ [u0], users := users s @ [?u], groups := ?gs', next_uid := next_uid s + 1,
        perms := assign_permissions ?gs'\<rparr>"
    unfolding main_add_user_def r by simp
  have pm: "perms (main_add_user L name_in dept_in role_in clearance_in s) = assign_permissions ?gs'"
    unfolding ma by simp
  show ?S
    unfolding r pm using k1 k2 m p ma unfolding key by simp
qed

theorem main_add_user_step_witness:
  "\<forall>L. strip [0xA0] = [] \<and>
   main_add_user L [0xA0] (py ''Eng'') (py ''Dev'') (py ''Low'') (main_init L) = main_init L \<and>
   strip (py ''Zed'') \<noteq> [] \<and>
   groups (main_init L) =
     [((py ''engineering'', py ''developer'', py ''high''), [0, 1, 6]),
      ((py ''engineering'', py ''tester'', py ''medium''), [2]),
      ((py ''hr'', py ''manager'', py ''high''), [3, 4]),
      ((py ''finance'', py ''analyst'', py ''low''), [5, 7])] \<and>
   groups (main_add_user L (py ''Zed'') (py '' Engineering '') (py ''DEVELOPER'') (py ''High'') (main_init L)) =
     [((py ''engineering'', py ''developer'', py ''high''), [0, 1, 6, 8]),
      ((py ''engineering'', py ''tester'', py ''medium''), [2]),
      ((py ''hr'', py ''manager'', py ''high''), [3, 4]),
      ((py ''finance'', py ''analyst'', py ''low''), [5, 7])] \<and>
   perms (main_add_user L (py ''Zed'') (py '' Engineering '') (py ''DEVELOPER'') (py ''High'') (main_init L)) =
     assign_permissions (groups (main_add_user L (py ''Zed'') (py '' Engineering '') (py ''DEVELOPER'') (py ''High'') (main_init L))) \<and>
   next_uid (main_add_user L (py ''Zed'') (py '' Engineering '') (py ''DEVELOPER'') (py ''High'') (main_init L)) = 10" (is "\<forall>L. ?P L")
proof
  fix L
  have n: "strip (py ''Zed'') \<noteq> []"
    by (simp add: strip_literals)
  have g: "groups (main_init L) =
     [((py ''engineering'', py ''developer'', py ''high''), [0, 1, 6]),
      ((py ''engineering'', py ''tester'', py ''medium''), [2]),
      ((py ''hr'', py ''manager'', py ''high''), [3, 4]),
      ((py ''finance'', py ''analyst'', py ''low''), [5, 7])]"
    by (simp add: main_init_eq build_classes_demo)
  have r: "add_user_interactive L (next_uid (main_init L)) (objs (main_init L)) (users (main_init L)) (groups (main_init L))
             (py ''Zed'') (py '' Engineering '') (py ''DEVELOPER'') (py ''High'')
     = (Some 8,
        fst (demo_data L) @ [\<lparr>uid = 9, name = py ''Zed'', dept = py ''engineering'', role = py ''developer'',
                           clearance = py ''high''\<rparr>],
        snd (demo_data L) @ [8],
        [((py ''engineering'', py ''developer'', py ''high''), [0, 1, 6, 8]),
         ((py ''engineering'', py ''tester'', py ''medium''), [2]),
         ((py ''hr'', py ''manager'', py ''high''), [3, 4]),
         ((py ''finance'', py ''analyst'', py ''low''), [5, 7])])"
    by (simp add: main_init_eq add_zed_demo)
  note t = main_add_user_step[where L = L and s = "main_init L"]
  have e: "strip [0xA0] = []"
    by (simp add: strip_def isspace_def whitespace_def)
  from t[of "[0xA0]" "py ''Eng''" "py ''Dev''" "py ''Low''"] e
  have f: "main_add_user L [0xA0] (py ''Eng'') (py ''Dev'') (py ''Low'') (main_init L) = main_init L"
    by blast
  from t[of "py ''Zed''" "py '' Engineering ''" "py ''DEVELOPER''" "py ''High''"] n
  have "main_add_user L (py ''Zed'') (py '' Engineering '') (py ''DEVELOPER'') (py ''High'') (main_init L) =
      (main_init L)\<lparr>objs := fst (demo_data L) @ [\<lparr>uid = 9, name = py ''Zed'', dept = py ''engineering'',
                    role = py ''developer'', clearance = py ''high''\<rparr>],
                users := snd (demo_data L) @ [8],
                groups := [((py ''engineering'', py ''developer'', py ''high''), [0, 1, 6, 8]),
                           ((py ''engineering'', py ''tester'', py ''medium''), [2]),
                           ((py ''hr'', py ''manager'', py ''high''), [3, 4]),
                           ((py ''finance'', py ''analyst'', py ''low''), [5, 7])],
                next_uid := next_uid (main_init L) + 1,
                perms := assign_permissions
                          [((py ''engineering'', py ''developer'', py ''high''), [0, 1, 6, 8]),
                           ((py ''engineering'', py ''tester'', py ''medium''), [2]),
                           ((py ''hr'', py ''manager'', py ''high''), [3, 4]),
                           ((py ''finance'', py ''analyst'', py ''low''), [5, 7])]\<rparr>"
    unfolding r by simp
  then show "?P L" using n g e f by (simp add: main_init_eq)
qed

section \<open>Recompute\<close>

text \<open>
  Claim C6. Recompute is idempotent: in every session state, recomputing twice gives
  the state that recomputing once gives. The grouping after a recompute is
  \<open>build_classes\<close> of the user list, and the permission mapping is
  \<open>assign_permissions\<close> of that grouping.
\<close>

theorem main_recompute_idempotent:
  "main_recompute (main_recompute s) = main_recompute s \<and>
   groups (main_recompute s) = build_classes (objs s) (users s) \<and>
   perms (main_recompute s) = assign_permissions (build_classes (objs s) (users s))"
  by (simp add: main_recompute_def)

theorem main_recompute_idempotent_witness:
  "\<forall>L. main_recompute (main_recompute (main_init L)) = main_recompute (main_init L) \<and>
   groups (main_recompute (main_init L)) =
     [((py ''engineering'', py ''developer'', py ''high''), [0, 1, 6]),
      ((py ''engineering'', py ''tester'', py ''medium''), [2]),
      ((py ''hr'', py ''manager'', py ''high''), [3, 4]),
      ((py ''finance'', py ''analyst'', py ''low''), [5, 7])] \<and>
   perms (main_recompute (main_init L)) =
     [((py ''engineering'', py ''developer'', py ''high''), py ''Level 3 Access''),
      ((py ''engineering'', py ''tester'', py ''medium''), py ''Level 2 Access''),
      ((py ''hr'', py ''manager'', py ''high''), py ''Level 3 Access''),
      ((py ''finance'', py ''analyst'', py ''low''), py ''Level 1 Access'')]" (is "\<forall>L. ?P L")
proof
  fix L
  note t = main_recompute_idempotent[of "main_init L"]
  have o: "objs (main_init L) = fst (demo_data L)" "users (main_init L) = snd (demo_data L)"
    by (simp_all add: main_init_eq)
  from t have 1: "main_recompute (main_recompute (main_init L)) = main_recompute (main_init L)"
    by blast
  from t have "groups (main_recompute (main_init L)) = build_classes (fst (demo_data L)) (snd (demo_data L))"
    unfolding o by blast
  then have 2: "groups (main_recompute (main_init L)) =
     [((py ''engineering'', py ''developer'', py ''high''), [0, 1, 6]),
      ((py ''engineering'', py ''tester'', py ''medium''), [2]),
      ((py ''hr'', py ''manager'', py ''high''), [3, 4]),
      ((py ''finance'', py ''analyst'', py ''low''), [5, 7])]"
    unfolding build_classes_demo .
  from t have "perms (main_recompute (main_init L)) =
      assign_permissions (build_classes (fst (demo_data L)) (snd (demo_data L)))"
    unfolding o by blast
  then have 3: "perms (main_recompute (main_init L)) =
     [((py ''engineering'', py ''developer'', py ''high''), py ''Level 3 Access''),
      ((py ''engineering'', py ''tester'', py ''medium''), py ''Level 2 Access''),
      ((py ''hr'', py ''manager'', py ''high''), py ''Level 3 Access''),
      ((py ''finance'', py ''analyst'', py ''low''), py ''Level 1 Access'')]"
    unfolding assign_permissions_demo .
  from 1 2 3 show "?P L" by blast
qed

end
